theory Spec2Isabelle
  imports Complex_Main "HOL-Library.Char_ord" "HOL-Library.List_Lexorder" "HOL-Library.Multiset"
begin

section \<open>The resume screening script (app.py)\<close>

text \<open>
  The script has two helper functions, \<open>extract_text_from_pdf\<close> and \<open>rank_resumes\<close>,
  and a top-level block that guards the two inputs, extracts every uploaded file, ranks
  and displays. The model keeps that shape.

  Python strings are \<open>string\<close>; a floating-point number is a \<open>real\<close> (rounding is
  not modelled). What one run of the script does is a trace: the calls of the two helpers and
  of the Streamlit output widgets \<open>st.error\<close>, \<open>st.warning\<close>, \<open>st.dataframe\<close> and
  \<open>st.download_button\<close>, in the order the script makes them. The \<open>st.markdown\<close> calls
  (style sheet, title, section headers, footer) show fixed text and are left out.
\<close>

subsection \<open>Data\<close>

datatype exn = ValueError string

datatype event =
    Call_extract string
  | Call_rank string "string list"
  | St_error string
  | St_warning string
  | St_dataframe "(nat \<times> string \<times> real) list"
  | St_download_button "(string \<times> real) list"

record 'c uploaded_file =
  name :: string
  content :: 'c

text \<open>
  The libraries the script calls are not part of the repository. What PyPDF2 does with a file
  and with a page, how the vectorizer splits a text into tokens and how pandas orders rows of
  equal score are parameters of the model:
  \<^item> \<open>PdfReader f\<close> is the list of pages of \<open>f\<close>, or \<open>Inl m\<close> when parsing raises an
    exception whose message is \<open>m\<close>;
  \<^item> \<open>extract_text p\<close> is the text of page \<open>p\<close>, or \<open>Inl m\<close> when the statement
    \<open>text += page.extract_text()\<close> raises;
  \<^item> \<open>analyzer\<close> is the analyzer of \<open>TfidfVectorizer()\<close>: the tokens of a document;
  \<^item> \<open>sort_values\<close> is \<open>DataFrame.sort_values(by="Score", ascending=False)\<close> on the
    rows (Resume, Score).
\<close>

record ('c, 'p) env =
  PdfReader :: "'c uploaded_file \<Rightarrow> string + 'p list"
  extract_text :: "'p \<Rightarrow> string + string"
  analyzer :: "string \<Rightarrow> string list"
  sort_values :: "(string \<times> real) list \<Rightarrow> (string \<times> real) list"

record run =
  trace :: "event list"
  uncaught :: "exn option"

subsection \<open>extract_text_from_pdf (lines 12-22)\<close>

text \<open>The \<open>for page in pdf.pages\<close> loop with its accumulator \<open>text\<close>.\<close>

fun extract_pages :: "('p \<Rightarrow> string + string) \<Rightarrow> 'p list \<Rightarrow> string \<Rightarrow> string + string" where
  "extract_pages ext [] text = Inr text"
| "extract_pages ext (page # pages) text =
     (case ext page of
        Inl e \<Rightarrow> Inl e
      | Inr t \<Rightarrow> extract_pages ext pages (text @ t))"

text \<open>
  The \<open>try\<close> block: any exception ends in \<open>st.error\<close> and the value \<open>None\<close>. The result is
  the pair of the widgets called and the value returned.
\<close>

definition extract_text_from_pdf ::
  "('c, 'p) env \<Rightarrow> 'c uploaded_file \<Rightarrow> event list \<times> string option" where
  "extract_text_from_pdf E file =
     (case PdfReader E file of
        Inl e \<Rightarrow> ([St_error (''Error reading PDF: '' @ e)], None)
      | Inr pages \<Rightarrow>
          (case extract_pages (extract_text E) pages [] of
             Inl e \<Rightarrow> ([St_error (''Error reading PDF: '' @ e)], None)
           | Inr text \<Rightarrow> ([], Some text)))"

subsection \<open>The vectorizer and the similarity of scikit-learn\<close>

text \<open>
  \<open>TfidfVectorizer()\<close> with its default settings: the vocabulary is the sorted list of the
  distinct tokens of all documents, a term weighs its count in the document times
  \<open>ln ((1 + n) / (1 + df)) + 1\<close> (smoothed inverse document frequency, \<open>n\<close> documents,
  \<open>df\<close> of them containing the term), every row is divided by its Euclidean norm (a zero
  row stays as it is), and an empty vocabulary raises \<open>ValueError\<close>.
\<close>

definition term_count :: "string \<Rightarrow> string list \<Rightarrow> nat" where
  "term_count t toks = length (filter (\<lambda>u. u = t) toks)"

definition doc_freq :: "(string \<Rightarrow> string list) \<Rightarrow> string list \<Rightarrow> string \<Rightarrow> nat" where
  "doc_freq an docs t = length (filter (\<lambda>d. t \<in> set (an d)) docs)"

definition idf :: "(string \<Rightarrow> string list) \<Rightarrow> string list \<Rightarrow> string \<Rightarrow> real" where
  "idf an docs t = ln ((1 + real (length docs)) / (1 + real (doc_freq an docs t))) + 1"

definition vocabulary :: "(string \<Rightarrow> string list) \<Rightarrow> string list \<Rightarrow> string list" where
  "vocabulary an docs = sort (remdups (concat (map an docs)))"

definition l2_normalize :: "real list \<Rightarrow> real list" where
  "l2_normalize xs =
     (let nrm = sqrt (sum_list (map (\<lambda>x. x * x) xs))
      in if nrm = 0 then xs else map (\<lambda>x. x / nrm) xs)"

definition tfidf_row ::
  "(string \<Rightarrow> string list) \<Rightarrow> string list \<Rightarrow> string list \<Rightarrow> string \<Rightarrow> real list" where
  "tfidf_row an docs vocab d =
     l2_normalize (map (\<lambda>t. real (term_count t (an d)) * idf an docs t) vocab)"

definition fit_transform :: "(string \<Rightarrow> string list) \<Rightarrow> string list \<Rightarrow> exn + real list list" where
  "fit_transform an docs =
     (let vocab = vocabulary an docs
      in if vocab = []
         then Inl (ValueError ''empty vocabulary; perhaps the documents only contain stop words'')
         else Inr (map (tfidf_row an docs vocab) docs))"

text \<open>
  \<open>cosine_similarity(X, Y)\<close>: both arguments need at least one row; the rows are normalised
  and entry \<open>(i, j)\<close> is the dot product of row \<open>i\<close> of \<open>X\<close> and row \<open>j\<close> of \<open>Y\<close>.
  The message of the \<open>ValueError\<close> is shortened: the library's also names the shape.
\<close>

definition dot :: "real list \<Rightarrow> real list \<Rightarrow> real" where
  "dot xs ys = sum_list (map2 (\<lambda>x y. x * y) xs ys)"

definition cosine :: "real list \<Rightarrow> real list \<Rightarrow> real" where
  "cosine x y = dot (l2_normalize x) (l2_normalize y)"

definition cosine_similarity :: "real list list \<Rightarrow> real list list \<Rightarrow> exn + real list list" where
  "cosine_similarity X Y =
     (if X = [] \<or> Y = []
      then Inl (ValueError ''Found array with 0 sample(s) while a minimum of 1 is required'')
      else Inr (map (\<lambda>x. map (\<lambda>y. cosine x y) Y) X))"

subsection \<open>rank_resumes (lines 26-36)\<close>

definition rank_resumes :: "(string \<Rightarrow> string list) \<Rightarrow> string \<Rightarrow> string list \<Rightarrow> exn + real list" where
  "rank_resumes an job_description resumes =
     (let documents = [job_description] @ resumes
      in case fit_transform an documents of
           Inl e \<Rightarrow> Inl e
         | Inr vectors \<Rightarrow>
             (let job_description_vector = vectors ! 0;
                  resume_vectors = drop 1 vectors
              in case cosine_similarity [job_description_vector] resume_vectors of
                   Inl e \<Rightarrow> Inl e
                 | Inr cosine_similarities \<Rightarrow> Inr (concat cosine_similarities)))"

subsection \<open>Main processing (lines 98-141)\<close>

text \<open>Python's truth value of \<open>text\<close>: \<open>None\<close> and the empty string are false.\<close>

fun truthy :: "string option \<Rightarrow> bool" where
  "truthy None = False"
| "truthy (Some text) = (text \<noteq> [])"

text \<open>
  The \<open>for file in uploaded_files\<close> loop (lines 103-110) over the remaining files, with the
  trace so far and the variables \<open>resumes\<close> and \<open>resume_names\<close>; the last component of the
  result is \<open>valid_files\<close>. The \<open>break\<close> is the branch without a recursive call.
\<close>

fun extract_loop ::
  "('c, 'p) env \<Rightarrow> 'c uploaded_file list \<Rightarrow> event list \<Rightarrow> string list \<Rightarrow> string list
     \<Rightarrow> event list \<times> string list \<times> string list \<times> bool" where
  "extract_loop E [] tr resumes resume_names = (tr, resumes, resume_names, True)"
| "extract_loop E (file # files) tr resumes resume_names =
     (case extract_text_from_pdf E file of
        (shown, text) \<Rightarrow>
          if truthy text
          then extract_loop E files (tr @ Call_extract (name file) # shown)
                 (resumes @ [the text]) (resume_names @ [name file])
          else (tr @ Call_extract (name file) # shown, resumes, resume_names, False))"

text \<open>
  Lines 112-137: what is shown once the loop has ended. The data frame pairs
  \<open>resume_names\<close> with \<open>scores\<close>, is sorted, and gets the index 1, 2, ...; the download
  button carries the same rows without the index. The two columns have the same length
  whenever the loop built them and \<open>rank_resumes\<close> returned, so \<open>zip\<close> drops nothing.
  An exception of \<open>rank_resumes\<close> is caught nowhere and ends the run.
\<close>

definition report ::
  "('c, 'p) env \<Rightarrow> string \<Rightarrow> event list \<times> string list \<times> string list \<times> bool \<Rightarrow> run" where
  "report E job_description st =
     (case st of (tr, resumes, resume_names, valid_files) \<Rightarrow>
        if valid_files then
          if resumes \<noteq> [] then
            (case rank_resumes (analyzer E) job_description resumes of
               Inl e \<Rightarrow> \<lparr>trace = tr @ [Call_rank job_description resumes], uncaught = Some e\<rparr>
             | Inr scores \<Rightarrow>
                 (let results = sort_values E (zip resume_names scores)
                  in \<lparr>trace = tr @ [Call_rank job_description resumes,
                                      St_dataframe (zip [1 ..< Suc (length results)] results),
                                      St_download_button results],
                      uncaught = None\<rparr>))
          else \<lparr>trace = tr @ [St_warning
                  ''No resumes were successfully processed. Please check the PDF files.''],
                uncaught = None\<rparr>
        else \<lparr>trace = tr @ [St_error
                ''An error occurred during PDF processing.  Please check the file(s).''],
              uncaught = None\<rparr>)"

text \<open>The \<open>if\<close>/\<open>elif\<close> chain of lines 98, 138 and 140; it has no \<open>else\<close>.\<close>

definition main :: "('c, 'p) env \<Rightarrow> string \<Rightarrow> 'c uploaded_file list \<Rightarrow> run" where
  "main E job_description uploaded_files =
     (if uploaded_files \<noteq> [] \<and> job_description \<noteq> [] then
        report E job_description (extract_loop E uploaded_files [] [] [])
      else if uploaded_files \<noteq> [] \<and> \<not> job_description \<noteq> [] then
        \<lparr>trace = [St_warning ''Please enter a job description to rank the resumes.''],
         uncaught = None\<rparr>
      else if job_description \<noteq> [] \<and> \<not> uploaded_files \<noteq> [] then
        \<lparr>trace = [St_warning ''Please upload resumes to rank.''], uncaught = None\<rparr>
      else \<lparr>trace = [], uncaught = None\<rparr>)"

subsection \<open>Reading a trace\<close>

text \<open>
  The files handed to \<open>extract_text_from_pdf\<close>, the arguments handed to
  \<open>rank_resumes\<close>, and the results shown (table and download button), each in order.
\<close>

fun extract_calls :: "event list \<Rightarrow> string list" where
  "extract_calls [] = []"
| "extract_calls (Call_extract n # tr) = n # extract_calls tr"
| "extract_calls (_ # tr) = extract_calls tr"

fun rank_calls :: "event list \<Rightarrow> (string \<times> string list) list" where
  "rank_calls [] = []"
| "rank_calls (Call_rank jd rs # tr) = (jd, rs) # rank_calls tr"
| "rank_calls (_ # tr) = rank_calls tr"

fun results_shown :: "event list \<Rightarrow> event list" where
  "results_shown [] = []"
| "results_shown (St_dataframe rows # tr) = St_dataframe rows # results_shown tr"
| "results_shown (St_download_button rows # tr) = St_download_button rows # results_shown tr"
| "results_shown (_ # tr) = results_shown tr"

fun warnings :: "event list \<Rightarrow> string list" where
  "warnings [] = []"
| "warnings (St_warning m # tr) = m # warnings tr"
| "warnings (_ # tr) = warnings tr"

subsection \<open>Concrete libraries for the examples\<close>

text \<open>
  A file whose content already is what PyPDF2 would find in it: the parse error, or per page
  the text or the error of that page.
\<close>

type_synonym pdf = "string + (string + string) list"

text \<open>
  The default analyzer of the vectorizer on ASCII text: lower case, then the maximal runs
  of letters, digits and underscores that have at least two characters
  (token pattern \<open>\b\w\w+\b\<close>).
\<close>

definition lower :: "char \<Rightarrow> char" where
  "lower c = (if c \<in> set ''ABCDEFGHIJKLMNOPQRSTUVWXYZ''
              then char_of (of_char c + (32::nat)) else c)"

definition word_char :: "char \<Rightarrow> bool" where
  "word_char c = (c \<in> set ''abcdefghijklmnopqrstuvwxyzABCDEFGHIJKLMNOPQRSTUVWXYZ0123456789_'')"

fun tokens :: "string \<Rightarrow> string \<Rightarrow> string list" where
  "tokens [] cur = (if 2 \<le> length cur then [cur] else [])"
| "tokens (c # cs) cur =
     (if word_char c then tokens cs (cur @ [c])
      else (if 2 \<le> length cur then [cur] else []) @ tokens cs [])"

definition default_analyzer :: "string \<Rightarrow> string list" where
  "default_analyzer doc = tokens (map lower doc) []"

text \<open>A stable descending sort, one of the orders \<open>sort_values\<close> may produce.\<close>

definition stable_desc :: "(string \<times> real) list \<Rightarrow> (string \<times> real) list" where
  "stable_desc rows = sort_key (\<lambda>r. - snd r) rows"

definition example_env :: "(pdf, string + string) env" where
  "example_env = \<lparr>PdfReader = content, extract_text = (\<lambda>p. p),
                   analyzer = default_analyzer, sort_values = stable_desc\<rparr>"

section \<open>Text extraction\<close>

lemma extract_pages_cases:
  "(\<exists>ts. map ext pages = map Inr ts \<and> extract_pages ext pages acc = Inr (acc @ concat ts)) \<or>
   (\<exists>pre p rest ts e. pages = pre @ p # rest \<and> map ext pre = map Inr ts \<and> ext p = Inl e \<and>
      extract_pages ext pages acc = Inl e)"
proof (induction pages arbitrary: acc)
  case Nil
  then show ?case by simp
next
  case (Cons q qs)
  show ?case
  proof (cases "ext q")
    case (Inl e)
    then have "q # qs = [] @ q # qs \<and> map ext [] = map Inr [] \<and> ext q = Inl e \<and>
      extract_pages ext (q # qs) acc = Inl e" by simp
    then show ?thesis by blast
  next
    case (Inr t)
    from Cons.IH [of "acc @ t"] show ?thesis
    proof
      assume "\<exists>ts. map ext qs = map Inr ts \<and>
        extract_pages ext qs (acc @ t) = Inr ((acc @ t) @ concat ts)"
      then obtain ts where "map ext qs = map Inr ts"
        "extract_pages ext qs (acc @ t) = Inr ((acc @ t) @ concat ts)"
        by blast
      with Inr have "map ext (q # qs) = map Inr (t # ts) \<and>
        extract_pages ext (q # qs) acc = Inr (acc @ concat (t # ts))" by simp
      then show ?thesis by blast
    next
      assume "\<exists>pre p rest ts e. qs = pre @ p # rest \<and> map ext pre = map Inr ts \<and>
        ext p = Inl e \<and> extract_pages ext qs (acc @ t) = Inl e"
      then obtain pre p rest ts e where "qs = pre @ p # rest" "map ext pre = map Inr ts"
        "ext p = Inl e" "extract_pages ext qs (acc @ t) = Inl e" by blast
      with Inr have "q # qs = (q # pre) @ p # rest \<and> map ext (q # pre) = map Inr (t # ts) \<and>
        ext p = Inl e \<and> extract_pages ext (q # qs) acc = Inl e" by simp
      then show ?thesis by blast
    qed
  qed
qed

text \<open>
  C10. \<open>extract_text_from_pdf\<close> has exactly two outcomes. Either the file parses and every
  page yields its text: then nothing is shown and the value is the concatenation of the page
  texts in page order. Or parsing raises, or some page raises after the pages before it
  yielded their text: then the value is \<open>None\<close> and the one thing shown is \<open>st.error\<close>
  with the message of that exception. No exception leaves the function.
\<close>

theorem extract_text_from_pdf_total:
  "(\<exists>pages ts. PdfReader E file = Inr pages \<and> map (extract_text E) pages = map Inr ts \<and>
      extract_text_from_pdf E file = ([], Some (concat ts))) \<or>
   (\<exists>e. extract_text_from_pdf E file = ([St_error (''Error reading PDF: '' @ e)], None) \<and>
      (PdfReader E file = Inl e \<or>
       (\<exists>pages pre p rest ts. PdfReader E file = Inr pages \<and> pages = pre @ p # rest \<and>
          map (extract_text E) pre = map Inr ts \<and> extract_text E p = Inl e)))"
proof (cases "PdfReader E file")
  case (Inl e)
  then show ?thesis by (simp add: extract_text_from_pdf_def)
next
  case (Inr pages)
  from extract_pages_cases [of "extract_text E" pages "[]"] show ?thesis
  proof
    assume "\<exists>ts. map (extract_text E) pages = map Inr ts \<and>
      extract_pages (extract_text E) pages [] = Inr ([] @ concat ts)"
    with Inr show ?thesis by (auto simp: extract_text_from_pdf_def)
  next
    assume "\<exists>pre p rest ts e. pages = pre @ p # rest \<and> map (extract_text E) pre = map Inr ts \<and>
      extract_text E p = Inl e \<and> extract_pages (extract_text E) pages [] = Inl e"
    then obtain pre p rest ts e where *: "pages = pre @ p # rest"
      "map (extract_text E) pre = map Inr ts" "extract_text E p = Inl e"
      "extract_pages (extract_text E) pages [] = Inl e" by blast
    have "extract_text_from_pdf E file = ([St_error (''Error reading PDF: '' @ e)], None)"
      using Inr *(4) by (simp add: extract_text_from_pdf_def)
    with Inr * show ?thesis by blast
  qed
qed

text \<open>Both outcomes occur: a two-page file, and a file whose second page raises.\<close>

lemma extract_text_from_pdf_two_pages:
  "extract_text_from_pdf example_env \<lparr>name = ''a.pdf'', content = Inr [Inr ''ab'', Inr ''cd'']\<rparr>
     = ([], Some ''abcd'')"
  by (simp add: extract_text_from_pdf_def example_env_def)

lemma extract_text_from_pdf_page_raises:
  "extract_text_from_pdf example_env
     \<lparr>name = ''a.pdf'', content = Inr [Inr ''ab'', Inl ''boom'', Inr ''cd'']\<rparr>
     = ([St_error ''Error reading PDF: boom''], None)"
  by (simp add: extract_text_from_pdf_def example_env_def)

section \<open>The batch loop and the input guards\<close>

lemma extract_shown:
  "fst (extract_text_from_pdf E f) = [] \<or> (\<exists>m. fst (extract_text_from_pdf E f) = [St_error m])"
  by (simp add: extract_text_from_pdf_def split: sum.splits)

lemma truthy_shown: "truthy (snd (extract_text_from_pdf E f)) \<Longrightarrow> fst (extract_text_from_pdf E f) = []"
  by (auto simp: extract_text_from_pdf_def split: sum.splits)

lemma extract_calls_append: "extract_calls (xs @ ys) = extract_calls xs @ extract_calls ys"
  by (induction xs rule: extract_calls.induct) simp_all

lemma rank_calls_append: "rank_calls (xs @ ys) = rank_calls xs @ rank_calls ys"
  by (induction xs rule: rank_calls.induct) simp_all

lemma results_shown_append: "results_shown (xs @ ys) = results_shown xs @ results_shown ys"
  by (induction xs rule: results_shown.induct) simp_all


lemma extract_calls_names: "extract_calls (map (\<lambda>f. Call_extract (name f)) fs) = map name fs"
  by (induction fs) simp_all

lemma rank_calls_names: "rank_calls (map (\<lambda>f. Call_extract (name f)) fs) = []"
  by (induction fs) simp_all

lemma results_shown_names: "results_shown (map (\<lambda>f. Call_extract (name f)) fs) = []"
  by (induction fs) simp_all


lemma shown_observed:
  "extract_calls (fst (extract_text_from_pdf E f)) = []"
  "rank_calls (fst (extract_text_from_pdf E f)) = []"
  "results_shown (fst (extract_text_from_pdf E f)) = []"
  "warnings (fst (extract_text_from_pdf E f)) = []"
  using extract_shown [of E f] by auto

lemma extract_loop_prefix:
  "\<forall>f\<in>set pre. truthy (snd (extract_text_from_pdf E f)) \<Longrightarrow>
   extract_loop E (pre @ rest) tr rs ns =
   extract_loop E rest (tr @ map (\<lambda>f. Call_extract (name f)) pre)
     (rs @ map (\<lambda>f. the (snd (extract_text_from_pdf E f))) pre) (ns @ map name pre)"
proof (induction pre arbitrary: tr rs ns)
  case Nil
  then show ?case by simp
next
  case (Cons f fs)
  then have t: "truthy (snd (extract_text_from_pdf E f))" by simp
  obtain shown tx where e: "extract_text_from_pdf E f = (shown, tx)"
    by (cases "extract_text_from_pdf E f")
  with t truthy_shown [OF t] have "truthy tx" "shown = []" by simp_all
  with e have "extract_loop E ((f # fs) @ rest) tr rs ns =
     extract_loop E (fs @ rest) (tr @ [Call_extract (name f)])
       (rs @ [the (snd (extract_text_from_pdf E f))]) (ns @ [name f])"
    by simp
  also have "\<dots> = extract_loop E rest ((tr @ [Call_extract (name f)]) @ map (\<lambda>f. Call_extract (name f)) fs)
     ((rs @ [the (snd (extract_text_from_pdf E f))]) @ map (\<lambda>f. the (snd (extract_text_from_pdf E f))) fs)
     ((ns @ [name f]) @ map name fs)"
    using Cons.prems by (intro Cons.IH) simp
  finally show ?case by simp
qed

lemma extract_loop_break:
  "\<not> truthy (snd (extract_text_from_pdf E bad)) \<Longrightarrow>
   extract_loop E (bad # rest) tr rs ns =
     (tr @ Call_extract (name bad) # fst (extract_text_from_pdf E bad), rs, ns, False)"
  by (cases "extract_text_from_pdf E bad") simp

lemma extract_loop_failing:
  assumes "\<forall>f\<in>set pre. truthy (snd (extract_text_from_pdf E f))"
    and "\<not> truthy (snd (extract_text_from_pdf E bad))"
  shows "extract_loop E (pre @ bad # rest) [] [] [] =
     (map (\<lambda>f. Call_extract (name f)) pre @ Call_extract (name bad) # fst (extract_text_from_pdf E bad),
      map (\<lambda>f. the (snd (extract_text_from_pdf E f))) pre, map name pre, False)"
  using extract_loop_prefix [OF assms(1), of "bad # rest" "[]" "[]" "[]"]
    extract_loop_break [OF assms(2)] by simp


lemma main_failing:
  assumes "\<forall>f\<in>set pre. truthy (snd (extract_text_from_pdf E f))"
    and "\<not> truthy (snd (extract_text_from_pdf E bad))"
    and "job_description \<noteq> []"
  shows "main E job_description (pre @ bad # rest) =
     \<lparr>trace = map (\<lambda>f. Call_extract (name f)) pre @
               Call_extract (name bad) # fst (extract_text_from_pdf E bad) @
               [St_error ''An error occurred during PDF processing.  Please check the file(s).''],
      uncaught = None\<rparr>"
  using assms(3) by (simp add: main_def report_def extract_loop_failing [OF assms(1,2)])

text \<open>
  C1. In a run with a job description, let the uploaded files be \<open>pre @ bad # rest\<close>, where
  every file of \<open>pre\<close> yields a text that passes the test \<open>if text\<close> and \<open>bad\<close> is the
  first that does not (its extraction returned \<open>None\<close>, or an empty text). Then
  \<open>extract_text_from_pdf\<close> is called for the files of \<open>pre\<close> and for \<open>bad\<close> and for no
  file of \<open>rest\<close>, \<open>valid_files\<close> is false, the run is the one with \<open>rest\<close> cut off, the
  last thing shown is the batch error, \<open>rank_resumes\<close> is not called, and neither table nor
  download button is shown.
\<close>

theorem batch_stops_at_first_failure:
  assumes "\<forall>f\<in>set pre. truthy (snd (extract_text_from_pdf E f))"
    and "\<not> truthy (snd (extract_text_from_pdf E bad))"
    and "job_description \<noteq> []"
  shows "extract_calls (trace (main E job_description (pre @ bad # rest))) = map name (pre @ [bad]) \<and>
     snd (snd (snd (extract_loop E (pre @ bad # rest) [] [] []))) = False \<and>
     main E job_description (pre @ bad # rest) = main E job_description (pre @ [bad]) \<and>
     last (trace (main E job_description (pre @ bad # rest))) =
       St_error ''An error occurred during PDF processing.  Please check the file(s).'' \<and>
     rank_calls (trace (main E job_description (pre @ bad # rest))) = [] \<and>
     results_shown (trace (main E job_description (pre @ bad # rest))) = [] \<and>
     uncaught (main E job_description (pre @ bad # rest)) = None"
proof -
  note m = main_failing [OF assms]
  have 1: "extract_calls (trace (main E job_description (pre @ bad # rest))) = map name (pre @ [bad])"
    by (simp add: m extract_calls_append extract_calls_names shown_observed)
  have 2: "snd (snd (snd (extract_loop E (pre @ bad # rest) [] [] []))) = False"
    by (simp add: extract_loop_failing [OF assms(1,2)])
  have 3: "main E job_description (pre @ bad # rest) = main E job_description (pre @ [bad])"
    by (simp add: m [of rest] m [of "[]"])
  have 4: "last (trace (main E job_description (pre @ bad # rest))) =
       St_error ''An error occurred during PDF processing.  Please check the file(s).''"
    by (simp add: m)
  have 5: "rank_calls (trace (main E job_description (pre @ bad # rest))) = []"
    by (simp add: m rank_calls_append rank_calls_names shown_observed)
  have 6: "results_shown (trace (main E job_description (pre @ bad # rest))) = []"
    by (simp add: m results_shown_append results_shown_names shown_observed)
  have 7: "uncaught (main E job_description (pre @ bad # rest)) = None"
    by (simp add: m)
  from 1 2 3 4 5 6 7 show ?thesis by blast
qed


theorem batch_stops_at_first_failure_witness:
  "truthy (snd (extract_text_from_pdf example_env
       \<lparr>name = ''a.pdf'', content = Inr [Inr ''python developer'']\<rparr>)) \<and>
   \<not> truthy (snd (extract_text_from_pdf example_env
       \<lparr>name = ''b.pdf'', content = Inl ''EOF marker not found''\<rparr>)) \<and>
   ''python'' \<noteq> [] \<and>
   extract_calls (trace (main example_env ''python''
       [\<lparr>name = ''a.pdf'', content = Inr [Inr ''python developer'']\<rparr>,
        \<lparr>name = ''b.pdf'', content = Inl ''EOF marker not found''\<rparr>,
        \<lparr>name = ''c.pdf'', content = Inr [Inr ''java developer'']\<rparr>])) = [''a.pdf'', ''b.pdf''] \<and>
   rank_calls (trace (main example_env ''python''
       [\<lparr>name = ''a.pdf'', content = Inr [Inr ''python developer'']\<rparr>,
        \<lparr>name = ''b.pdf'', content = Inl ''EOF marker not found''\<rparr>,
        \<lparr>name = ''c.pdf'', content = Inr [Inr ''java developer'']\<rparr>])) = [] \<and>
   results_shown (trace (main example_env ''python''
       [\<lparr>name = ''a.pdf'', content = Inr [Inr ''python developer'']\<rparr>,
        \<lparr>name = ''b.pdf'', content = Inl ''EOF marker not found''\<rparr>,
        \<lparr>name = ''c.pdf'', content = Inr [Inr ''java developer'']\<rparr>])) = []"
proof -
  have h1: "\<forall>f\<in>set [\<lparr>name = ''a.pdf'', content = Inr [Inr ''python developer'']\<rparr>].
       truthy (snd (extract_text_from_pdf example_env f))"
    by (simp add: extract_text_from_pdf_def example_env_def)
  have h2: "\<not> truthy (snd (extract_text_from_pdf example_env
       \<lparr>name = ''b.pdf'', content = Inl ''EOF marker not found''\<rparr>))"
    by (simp add: extract_text_from_pdf_def example_env_def)
  have h3: "''python'' \<noteq> []" by simp
  note t = batch_stops_at_first_failure [OF h1 h2 h3,
      of "[\<lparr>name = ''c.pdf'', content = Inr [Inr ''java developer'']\<rparr>]"]
  from t [THEN conjunct1]
  have 1: "extract_calls (trace (main example_env ''python''
       [\<lparr>name = ''a.pdf'', content = Inr [Inr ''python developer'']\<rparr>,
        \<lparr>name = ''b.pdf'', content = Inl ''EOF marker not found''\<rparr>,
        \<lparr>name = ''c.pdf'', content = Inr [Inr ''java developer'']\<rparr>])) = [''a.pdf'', ''b.pdf'']"
    by simp
  from t [THEN conjunct2, THEN conjunct2, THEN conjunct2, THEN conjunct2, THEN conjunct1]
  have 2: "rank_calls (trace (main example_env ''python''
       [\<lparr>name = ''a.pdf'', content = Inr [Inr ''python developer'']\<rparr>,
        \<lparr>name = ''b.pdf'', content = Inl ''EOF marker not found''\<rparr>,
        \<lparr>name = ''c.pdf'', content = Inr [Inr ''java developer'']\<rparr>])) = []"
    by simp
  from t [THEN conjunct2, THEN conjunct2, THEN conjunct2, THEN conjunct2, THEN conjunct2,
      THEN conjunct1]
  have 3: "results_shown (trace (main example_env ''python''
       [\<lparr>name = ''a.pdf'', content = Inr [Inr ''python developer'']\<rparr>,
        \<lparr>name = ''b.pdf'', content = Inl ''EOF marker not found''\<rparr>,
        \<lparr>name = ''c.pdf'', content = Inr [Inr ''java developer'']\<rparr>])) = []"
    by simp
  have h0: "truthy (snd (extract_text_from_pdf example_env
       \<lparr>name = ''a.pdf'', content = Inr [Inr ''python developer'']\<rparr>))"
    using h1 by simp
  from h0 h2 h3 1 2 3 show ?thesis by (intro conjI)
qed

text \<open>A list with a file that fails the test has a first such file.\<close>

lemma first_failing:
  assumes "f \<in> set fs" and "\<not> truthy (snd (extract_text_from_pdf E f))"
  shows "\<exists>pre bad rest. fs = pre @ bad # rest \<and>
     (\<forall>g\<in>set pre. truthy (snd (extract_text_from_pdf E g))) \<and>
     \<not> truthy (snd (extract_text_from_pdf E bad))"
proof -
  from assms have "\<exists>x\<in>set fs. \<not> truthy (snd (extract_text_from_pdf E x))" by blast
  from split_list_first_prop [OF this] show ?thesis by blast
qed

text \<open>
  C6. If some uploaded file yields the empty text, or no text at all, then \<open>rank_resumes\<close>
  is not called, no table and no download button is shown (so the file gets no score, 0 or
  other) and no exception leaves the run; with a job description present the loop ends with
  \<open>valid_files\<close> false and the last thing shown is the batch error.
\<close>

theorem empty_or_failed_text_rejects_batch:
  assumes "f \<in> set uploaded_files"
    and "\<not> truthy (snd (extract_text_from_pdf E f))"
  shows "rank_calls (trace (main E job_description uploaded_files)) = [] \<and>
     results_shown (trace (main E job_description uploaded_files)) = [] \<and>
     uncaught (main E job_description uploaded_files) = None \<and>
     (job_description \<noteq> [] \<longrightarrow>
        snd (snd (snd (extract_loop E uploaded_files [] [] []))) = False \<and>
        last (trace (main E job_description uploaded_files)) =
          St_error ''An error occurred during PDF processing.  Please check the file(s).'')"
proof (cases "job_description = []")
  case True
  from assms(1) have "uploaded_files \<noteq> []" by auto
  with True show ?thesis by (simp add: main_def)
next
  case False
  from first_failing [OF assms] obtain pre bad rest where
    fs: "uploaded_files = pre @ bad # rest" and
    ok: "\<forall>g\<in>set pre. truthy (snd (extract_text_from_pdf E g))" and
    bad: "\<not> truthy (snd (extract_text_from_pdf E bad))" by blast
  note m = main_failing [OF ok bad False, of rest]
  have 1: "rank_calls (trace (main E job_description uploaded_files)) = []"
    by (simp add: fs m rank_calls_append rank_calls_names shown_observed)
  have 2: "results_shown (trace (main E job_description uploaded_files)) = []"
    by (simp add: fs m results_shown_append results_shown_names shown_observed)
  have 3: "uncaught (main E job_description uploaded_files) = None"
    by (simp add: fs m)
  have 4: "snd (snd (snd (extract_loop E uploaded_files [] [] []))) = False"
    by (simp add: fs extract_loop_failing [OF ok bad])
  have 5: "last (trace (main E job_description uploaded_files)) =
          St_error ''An error occurred during PDF processing.  Please check the file(s).''"
    by (simp add: fs m)
  from 1 2 3 4 5 show ?thesis by blast
qed

theorem empty_or_failed_text_rejects_batch_witness:
  "\<lparr>name = ''scan.pdf'', content = Inr [Inr [], Inr []]\<rparr> \<in>
      set [\<lparr>name = ''a.pdf'', content = Inr [Inr ''python developer'']\<rparr>,
           \<lparr>name = ''scan.pdf'', content = Inr [Inr [], Inr []]\<rparr>] \<and>
   snd (extract_text_from_pdf example_env \<lparr>name = ''scan.pdf'', content = Inr [Inr [], Inr []]\<rparr>)
      = Some [] \<and>
   rank_calls (trace (main example_env ''python''
      [\<lparr>name = ''a.pdf'', content = Inr [Inr ''python developer'']\<rparr>,
       \<lparr>name = ''scan.pdf'', content = Inr [Inr [], Inr []]\<rparr>])) = [] \<and>
   last (trace (main example_env ''python''
      [\<lparr>name = ''a.pdf'', content = Inr [Inr ''python developer'']\<rparr>,
       \<lparr>name = ''scan.pdf'', content = Inr [Inr [], Inr []]\<rparr>])) =
     St_error ''An error occurred during PDF processing.  Please check the file(s).''"
proof -
  have h1: "\<lparr>name = ''scan.pdf'', content = Inr [Inr [], Inr []]\<rparr> \<in>
      set [\<lparr>name = ''a.pdf'', content = Inr [Inr ''python developer'']\<rparr>,
           \<lparr>name = ''scan.pdf'', content = Inr [Inr [], Inr []]\<rparr> :: pdf uploaded_file]"
    by simp
  have e: "snd (extract_text_from_pdf example_env
      \<lparr>name = ''scan.pdf'', content = Inr [Inr [], Inr []]\<rparr>) = Some []"
    by (simp add: extract_text_from_pdf_def example_env_def)
  then have h2: "\<not> truthy (snd (extract_text_from_pdf example_env
      \<lparr>name = ''scan.pdf'', content = Inr [Inr [], Inr []]\<rparr>))" by simp
  from empty_or_failed_text_rejects_batch [OF h1 h2, of "''python''"] h1 e
  show ?thesis by simp
qed







text \<open>
  C5, as the code has it. When the job description or the upload is missing,
  \<open>rank_resumes\<close> and \<open>extract_text_from_pdf\<close> are not called and nothing is raised. When
  exactly one of the two is missing, one warning is shown, naming the missing input. When both
  are missing, nothing is shown: the chain of lines 98-141 has no branch for that case.
\<close>

theorem missing_input_guard:
  assumes "job_description = [] \<or> uploaded_files = []"
  shows "rank_calls (trace (main E job_description uploaded_files)) = [] \<and>
     extract_calls (trace (main E job_description uploaded_files)) = [] \<and>
     uncaught (main E job_description uploaded_files) = None \<and>
     trace (main E job_description uploaded_files) =
       (if uploaded_files \<noteq> []
        then [St_warning ''Please enter a job description to rank the resumes.'']
        else if job_description \<noteq> [] then [St_warning ''Please upload resumes to rank.'']
        else [])"
  using assms by (auto simp: main_def)

theorem missing_input_guard_witness:
  "([] = ([]::string) \<or> [\<lparr>name = ''a.pdf'', content = Inr [Inr ''python developer'']\<rparr>] = []) \<and>
   trace (main example_env [] [\<lparr>name = ''a.pdf'', content = Inr [Inr ''python developer'']\<rparr>]) =
     [St_warning ''Please enter a job description to rank the resumes.''] \<and>
   rank_calls (trace (main example_env []
     [\<lparr>name = ''a.pdf'', content = Inr [Inr ''python developer'']\<rparr>])) = []"
proof -
  have h: "[] = ([]::string) \<or>
     [\<lparr>name = ''a.pdf'', content = Inr [Inr ''python developer'']\<rparr> :: pdf uploaded_file] = []"
    by simp
  from missing_input_guard [OF h, of example_env] show ?thesis by simp
qed

text \<open>With neither a job description nor a file, the run shows no warning.\<close>

theorem both_missing_no_warning:
  "trace (main example_env [] []) = []"
  by (simp add: main_def)

section \<open>Ranking\<close>

subsection \<open>Normalised rows and their dot product\<close>

lemma l2_normalize_scale: "\<exists>c. 0 < c \<and> l2_normalize xs = map (\<lambda>x. c * x) xs"
proof (cases "sqrt (sum_list (map (\<lambda>x. x * x) xs)) = 0")
  case True
  then have "l2_normalize xs = map (\<lambda>x. 1 * x) xs" by (simp add: l2_normalize_def)
  then show ?thesis by (intro exI [of _ 1]) simp
next
  case False
  have "0 \<le> sum_list (map (\<lambda>x. x * x) xs)" by (intro sum_list_nonneg) auto
  with False have pos: "0 < sqrt (sum_list (map (\<lambda>x. x * x) xs))" by simp
  from False have "l2_normalize xs = map (\<lambda>x. (1 / sqrt (sum_list (map (\<lambda>x. x * x) xs))) * x) xs"
    by (simp add: l2_normalize_def)
  with pos show ?thesis by (intro exI [of _ "1 / sqrt (sum_list (map (\<lambda>x. x * x) xs))"]) simp
qed

lemma l2_normalize_nonneg:
  assumes "\<forall>x\<in>set xs. 0 \<le> x"
  shows "\<forall>x\<in>set (l2_normalize xs). 0 \<le> x"
proof -
  from l2_normalize_scale [of xs] obtain c where "0 < c" "l2_normalize xs = map (\<lambda>x. c * x) xs"
    by blast
  with assms show ?thesis by auto
qed

lemma sumsq_scale: "sum_list (map (\<lambda>x. x * x) (map (\<lambda>x. x / c) xs)) = sum_list (map (\<lambda>x. x * x) xs) / (c * c)"
  for c :: real
  by (induction xs) (simp_all add: add_divide_distrib)

lemma l2_normalize_sumsq: "sum_list (map (\<lambda>x. x * x) (l2_normalize xs)) \<le> 1"
proof (cases "sqrt (sum_list (map (\<lambda>x. x * x) xs)) = 0")
  case True
  have "0 \<le> sum_list (map (\<lambda>x. x * x) xs)" by (intro sum_list_nonneg) auto
  with True have "sum_list (map (\<lambda>x. x * x) xs) = 0" by simp
  with True show ?thesis by (simp add: l2_normalize_def)
next
  case False
  define S where "S = sum_list (map (\<lambda>x. x * x) xs)"
  have nn: "0 \<le> S" unfolding S_def by (intro sum_list_nonneg) auto
  then have sq: "sqrt S * sqrt S = S" by simp
  from False nn have nz: "S \<noteq> 0" by (auto simp: S_def)
  from False have "l2_normalize xs = map (\<lambda>x. x / sqrt S) xs"
    by (simp add: l2_normalize_def S_def)
  then have "sum_list (map (\<lambda>x. x * x) (l2_normalize xs)) = S / (sqrt S * sqrt S)"
    unfolding S_def by (simp only: sumsq_scale)
  with sq nz have "sum_list (map (\<lambda>x. x * x) (l2_normalize xs)) = 1" by simp
  then show ?thesis by simp
qed

lemma dot_le_sumsq:
  "2 * dot xs ys \<le> sum_list (map (\<lambda>x. x * x) xs) + sum_list (map (\<lambda>x. x * x) ys)"
proof (induction xs arbitrary: ys)
  case Nil
  have "0 \<le> sum_list (map (\<lambda>x. x * x) ys)" by (intro sum_list_nonneg) auto
  then show ?case by (simp add: dot_def)
next
  case (Cons x xs)
  show ?case
  proof (cases ys)
    case Nil
    have "0 \<le> sum_list (map (\<lambda>x. x * x) (x # xs))" by (intro sum_list_nonneg) auto
    with Nil show ?thesis by (simp add: dot_def)
  next
    case (Cons y ys')
    have "2 * (x * y) \<le> x * x + y * y" using sum_squares_bound [of x y] by (simp add: power2_eq_square)
    moreover from Cons.IH [of ys'] have "2 * dot xs ys' \<le>
      sum_list (map (\<lambda>x. x * x) xs) + sum_list (map (\<lambda>x. x * x) ys')" .
    ultimately show ?thesis using Cons by (simp add: dot_def algebra_simps)
  qed
qed

lemma dot_nonneg:
  assumes "\<forall>x\<in>set xs. 0 \<le> x" and "\<forall>y\<in>set ys. 0 \<le> y"
  shows "0 \<le> dot xs ys"
  unfolding dot_def
proof (intro sum_list_nonneg)
  fix z assume "z \<in> set (map2 (\<lambda>x y. x * y) xs ys)"
  then obtain x y where "(x, y) \<in> set (zip xs ys)" "z = x * y" by auto
  then have "x \<in> set xs" "y \<in> set ys" by (auto dest: set_zip_leftD set_zip_rightD)
  with assms \<open>z = x * y\<close> show "0 \<le> z" by simp
qed

lemma cosine_le_1: "cosine u v \<le> 1"
proof -
  have "2 * cosine u v \<le> sum_list (map (\<lambda>x. x * x) (l2_normalize u)) +
     sum_list (map (\<lambda>x. x * x) (l2_normalize v))"
    unfolding cosine_def by (rule dot_le_sumsq)
  also have "\<dots> \<le> 1 + 1" by (intro add_mono l2_normalize_sumsq)
  finally show ?thesis by simp
qed

lemma cosine_nonneg:
  assumes "\<forall>x\<in>set u. 0 \<le> x" and "\<forall>y\<in>set v. 0 \<le> y"
  shows "0 \<le> cosine u v"
  unfolding cosine_def
  by (intro dot_nonneg l2_normalize_nonneg assms)

lemma idf_nonneg: "0 \<le> idf an docs t"
proof -
  have "doc_freq an docs t \<le> length docs" by (simp add: doc_freq_def)
  then have "1 \<le> (1 + real (length docs)) / (1 + real (doc_freq an docs t))" by simp
  then have "0 \<le> ln ((1 + real (length docs)) / (1 + real (doc_freq an docs t)))" by simp
  then show ?thesis by (simp add: idf_def)
qed

lemma tfidf_row_nonneg: "\<forall>x\<in>set (tfidf_row an docs vocab d). 0 \<le> x"
  unfolding tfidf_row_def
  by (intro l2_normalize_nonneg) (auto simp: idf_nonneg)

lemma dot_maps: "dot (map F V) (map G V) = sum_list (map (\<lambda>t. F t * G t) V)"
  by (induction V) (simp_all add: dot_def)

lemma cosine_disjoint:
  assumes "\<forall>t\<in>set V. F t * G t = 0"
  shows "cosine (l2_normalize (map F V)) (l2_normalize (map G V)) = 0"
proof -
  obtain a where a: "l2_normalize (map F V) = map (\<lambda>x. a * x) (map F V)"
    using l2_normalize_scale by blast
  obtain a' where a': "l2_normalize (map (\<lambda>t. a * F t) V) = map (\<lambda>x. a' * x) (map (\<lambda>t. a * F t) V)"
    using l2_normalize_scale by blast
  obtain b where b: "l2_normalize (map G V) = map (\<lambda>x. b * x) (map G V)"
    using l2_normalize_scale by blast
  obtain b' where b': "l2_normalize (map (\<lambda>t. b * G t) V) = map (\<lambda>x. b' * x) (map (\<lambda>t. b * G t) V)"
    using l2_normalize_scale by blast
  have "cosine (l2_normalize (map F V)) (l2_normalize (map G V)) =
    dot (map (\<lambda>t. a' * (a * F t)) V) (map (\<lambda>t. b' * (b * G t)) V)"
    using a' b' by (simp add: cosine_def a b comp_def)
  also have "\<dots> = sum_list (map (\<lambda>t. (a' * a * b' * b) * (F t * G t)) V)"
    by (simp add: dot_maps algebra_simps)
  also have "\<dots> = sum_list (map (\<lambda>t. 0) V)"
    using assms by (intro arg_cong [where f = sum_list] map_cong) simp_all
  also have "\<dots> = 0" by simp
  finally show ?thesis .
qed

subsection \<open>What rank_resumes returns\<close>

lemma term_count_zero: "t \<notin> set toks \<Longrightarrow> term_count t toks = 0"
  by (auto simp: term_count_def filter_empty_conv)

lemma rank_resumes_eq:
  assumes "resumes \<noteq> []" and "vocabulary an (job_description # resumes) \<noteq> []"
  shows "rank_resumes an job_description resumes =
     Inr (map (\<lambda>r. cosine
            (tfidf_row an (job_description # resumes) (vocabulary an (job_description # resumes))
               job_description)
            (tfidf_row an (job_description # resumes) (vocabulary an (job_description # resumes)) r))
          resumes)"
  using assms by (simp add: rank_resumes_def fit_transform_def cosine_similarity_def Let_def)

lemma rank_resumes_no_vocabulary:
  assumes "vocabulary an (job_description # resumes) = []"
  shows "rank_resumes an job_description resumes =
     Inl (ValueError ''empty vocabulary; perhaps the documents only contain stop words'')"
  using assms by (simp add: rank_resumes_def fit_transform_def)

lemma rank_resumes_no_resumes:
  assumes "vocabulary an [job_description] \<noteq> []"
  shows "rank_resumes an job_description [] =
     Inl (ValueError ''Found array with 0 sample(s) while a minimum of 1 is required'')"
  using assms by (simp add: rank_resumes_def fit_transform_def cosine_similarity_def Let_def)

lemma rank_resumes_Inr:
  assumes "rank_resumes an job_description resumes = Inr scores"
  shows "resumes \<noteq> [] \<and> vocabulary an (job_description # resumes) \<noteq> []"
proof (cases "vocabulary an (job_description # resumes) = []")
  case True
  from rank_resumes_no_vocabulary [OF True] assms show ?thesis by simp
next
  case False
  show ?thesis
  proof (cases "resumes = []")
    case True
    with False rank_resumes_no_resumes [of an job_description] assms show ?thesis by simp
  next
    case False
    with \<open>vocabulary an (job_description # resumes) \<noteq> []\<close> show ?thesis by simp
  qed
qed


text \<open>
  C2, as the code has it. For a non-empty list of resumes whose tokens, together with those of
  the job description, form a non-empty vocabulary, \<open>rank_resumes\<close> returns one score per
  resume, and the score at position \<open>i\<close> is the similarity of the row of the job
  description and the row of resume \<open>i\<close>.
\<close>

theorem rank_resumes_one_score_each:
  assumes "resumes \<noteq> []" and "vocabulary an (job_description # resumes) \<noteq> []"
  shows "\<exists>scores. rank_resumes an job_description resumes = Inr scores \<and>
     length scores = length resumes \<and>
     (\<forall>i<length resumes. scores ! i =
        cosine
          (tfidf_row an (job_description # resumes) (vocabulary an (job_description # resumes))
             job_description)
          (tfidf_row an (job_description # resumes) (vocabulary an (job_description # resumes))
             (resumes ! i)))"
  by (simp add: rank_resumes_eq [OF assms])

lemma example_vocabulary:
  "vocabulary default_analyzer [''python developer'', ''senior python developer'', ''graphic designer'']
     = [''designer'', ''developer'', ''graphic'', ''python'', ''senior'']"
  by code_simp

theorem rank_resumes_one_score_each_witness:
  "[''senior python developer'', ''graphic designer''] \<noteq> [] \<and>
   vocabulary default_analyzer
     (''python developer'' # [''senior python developer'', ''graphic designer'']) \<noteq> [] \<and>
   (\<exists>scores. rank_resumes default_analyzer ''python developer''
       [''senior python developer'', ''graphic designer''] = Inr scores \<and> length scores = 2)"
proof -
  have h1: "[''senior python developer'', ''graphic designer''] \<noteq> []" by simp
  have h2: "vocabulary default_analyzer
     (''python developer'' # [''senior python developer'', ''graphic designer'']) \<noteq> []"
    by (simp add: example_vocabulary)
  from rank_resumes_one_score_each [OF h1 h2] obtain scores where
    "rank_resumes default_analyzer ''python developer''
       [''senior python developer'', ''graphic designer''] = Inr scores" "length scores = 2"
    by auto
  then have "\<exists>scores. rank_resumes default_analyzer ''python developer''
       [''senior python developer'', ''graphic designer''] = Inr scores \<and> length scores = 2"
    by blast
  with h1 h2 show ?thesis by (intro conjI)
qed

text \<open>
  A job description and a resume can both be non-empty and still have no token: the token
  pattern asks for two word characters. Then the vectorizer raises.
\<close>

lemma single_letters_no_vocabulary: "vocabulary default_analyzer [''a'', ''b''] = []"
  by code_simp

theorem rank_resumes_raises_on_nonempty_input:
  "''a'' \<noteq> [] \<and> [''b''] \<noteq> [] \<and>
   rank_resumes default_analyzer ''a'' [''b''] =
     Inl (ValueError ''empty vocabulary; perhaps the documents only contain stop words'')"
  using rank_resumes_no_vocabulary [of default_analyzer "''a''" "[''b'']"]
  by (simp add: single_letters_no_vocabulary)

text \<open>
  C4. With the job description \<open>a\<close> and one uploaded file whose text is \<open>b\<close>, both
  guards of the script pass (\<open>if text\<close>, \<open>if resumes\<close>), \<open>rank_resumes\<close> is called and
  raises \<open>ValueError\<close>, and the exception leaves the run: nothing is shown after the call,
  no \<open>st.error\<close> either.
\<close>

theorem vectorization_error_uncaught:
  "main example_env ''a'' [\<lparr>name = ''r.pdf'', content = Inr [Inr ''b'']\<rparr>] =
     \<lparr>trace = [Call_extract ''r.pdf'', Call_rank ''a'' [''b'']],
      uncaught = Some (ValueError ''empty vocabulary; perhaps the documents only contain stop words'')\<rparr>"
proof -
  have "rank_resumes (analyzer example_env) ''a'' [''b''] =
     Inl (ValueError ''empty vocabulary; perhaps the documents only contain stop words'')"
    using rank_resumes_no_vocabulary [of default_analyzer "''a''" "[''b'']"]
    by (simp add: single_letters_no_vocabulary example_env_def)
  moreover have "extract_text_from_pdf example_env \<lparr>name = ''r.pdf'', content = Inr [Inr ''b'']\<rparr>
     = ([], Some ''b'')"
    by (simp add: extract_text_from_pdf_def example_env_def)
  ultimately show ?thesis by (simp add: main_def report_def)
qed

text \<open>
  The range of the scores in exact arithmetic. Whenever \<open>rank_resumes\<close> returns, there is
  one score per resume, every score lies between 0 and 1, and the score of a resume that
  shares no token with the job description is 0. The bounds are those of the real numbers
  the rows stand for: how far a rounded dot product of two rounded unit rows can leave the
  interval is outside this model.
\<close>

lemma scores_in_unit_interval:
  assumes "rank_resumes an job_description resumes = Inr scores"
  shows "length scores = length resumes \<and>
     (\<forall>s\<in>set scores. 0 \<le> s \<and> s \<le> 1) \<and>
     (\<forall>i<length resumes. set (an (resumes ! i)) \<inter> set (an job_description) = {} \<longrightarrow>
        scores ! i = 0)"
proof -
  from rank_resumes_Inr [OF assms] have ne: "resumes \<noteq> []"
    and voc: "vocabulary an (job_description # resumes) \<noteq> []" by simp_all
  let ?docs = "job_description # resumes"
  let ?V = "vocabulary an ?docs"
  let ?f = "\<lambda>r. cosine (tfidf_row an ?docs ?V job_description) (tfidf_row an ?docs ?V r)"
  from rank_resumes_eq [OF ne voc] assms have sc: "scores = map ?f resumes" by simp
  have 1: "length scores = length resumes" by (simp add: sc)
  have 2: "\<forall>s\<in>set scores. 0 \<le> s \<and> s \<le> 1"
  proof
    fix s assume "s \<in> set scores"
    then obtain r where "s = ?f r" by (auto simp: sc)
    then show "0 \<le> s \<and> s \<le> 1"
      using cosine_nonneg [OF tfidf_row_nonneg tfidf_row_nonneg] cosine_le_1 by simp
  qed
  have 3: "\<forall>i<length resumes. set (an (resumes ! i)) \<inter> set (an job_description) = {} \<longrightarrow>
        scores ! i = 0"
  proof (intro allI impI)
    fix i assume i: "i < length resumes"
      and dis: "set (an (resumes ! i)) \<inter> set (an job_description) = {}"
    have "\<forall>t\<in>set ?V. (real (term_count t (an job_description)) * idf an ?docs t) *
        (real (term_count t (an (resumes ! i))) * idf an ?docs t) = 0"
    proof
      fix t assume "t \<in> set ?V"
      from dis have "t \<notin> set (an job_description) \<or> t \<notin> set (an (resumes ! i))" by blast
      then have "term_count t (an job_description) = 0 \<or> term_count t (an (resumes ! i)) = 0"
        by (auto simp: term_count_zero)
      then show "(real (term_count t (an job_description)) * idf an ?docs t) *
        (real (term_count t (an (resumes ! i))) * idf an ?docs t) = 0" by auto
    qed
    then have "?f (resumes ! i) = 0"
      unfolding tfidf_row_def by (rule cosine_disjoint)
    with i show "scores ! i = 0" by (simp add: sc)
  qed
  from 1 2 3 show ?thesis by blast
qed

lemma example_tokens:
  "set (default_analyzer ''graphic designer'') \<inter> set (default_analyzer ''python developer'') = {}"
  by code_simp

lemma scores_in_unit_interval_example:
  "\<exists>scores. rank_resumes default_analyzer ''python developer''
       [''senior python developer'', ''graphic designer''] = Inr scores \<and>
     length scores = 2 \<and> 0 \<le> scores ! 0 \<and> scores ! 0 \<le> 1 \<and> scores ! 1 = 0"
proof -
  have h1: "[''senior python developer'', ''graphic designer''] \<noteq> []" by simp
  have h2: "vocabulary default_analyzer
     (''python developer'' # [''senior python developer'', ''graphic designer'']) \<noteq> []"
    by (simp add: example_vocabulary)
  from rank_resumes_eq [OF h1 h2] obtain scores where
    r: "rank_resumes default_analyzer ''python developer''
       [''senior python developer'', ''graphic designer''] = Inr scores"
    by blast
  note t = scores_in_unit_interval [OF r]
  from t have l: "length scores = 2" by simp
  from t have "\<forall>s\<in>set scores. 0 \<le> s \<and> s \<le> 1" by blast
  with l have b: "0 \<le> scores ! 0 \<and> scores ! 0 \<le> 1" by (metis nth_mem zero_less_numeral)
  from t have "\<forall>i<length [''senior python developer'', ''graphic designer''].
     set (default_analyzer ([''senior python developer'', ''graphic designer''] ! i)) \<inter>
       set (default_analyzer ''python developer'') = {} \<longrightarrow> scores ! i = 0" by blast
  then have "set (default_analyzer ([''senior python developer'', ''graphic designer''] ! 1)) \<inter>
       set (default_analyzer ''python developer'') = {} \<longrightarrow> scores ! 1 = 0" by simp
  with example_tokens have z: "scores ! 1 = 0" by simp
  from r l b z show ?thesis by blast
qed

subsection \<open>Reordering the resumes\<close>

lemma mset_reindex:
  assumes "bij_betw p {..<length xs} {..<length xs}"
  shows "mset (map (\<lambda>i. xs ! p i) [0..<length xs]) = mset xs"
proof -
  from assms have inj: "inj_on p {0..<length xs}" and img: "p ` {0..<length xs} = {0..<length xs}"
    by (simp_all add: bij_betw_def atLeast0LessThan)
  have "mset (map (\<lambda>i. xs ! p i) [0..<length xs]) =
     image_mset (\<lambda>j. xs ! j) (image_mset p (mset [0..<length xs]))"
    by (simp add: multiset.map_comp comp_def)
  also have "image_mset p (mset [0..<length xs]) = mset_set (p ` {0..<length xs})"
    by (simp add: image_mset_mset_set [OF inj])
  also have "\<dots> = mset [0..<length xs]" by (simp add: img)
  also have "image_mset (\<lambda>j. xs ! j) (mset [0..<length xs]) = mset (map (\<lambda>j. xs ! j) [0..<length xs])"
    by simp
  also have "map (\<lambda>j. xs ! j) [0..<length xs] = xs" by (rule map_nth)
  finally show ?thesis .
qed

lemma vocabulary_cong:
  assumes "set docs' = set docs"
  shows "vocabulary an docs' = vocabulary an docs"
proof -
  have "set (concat (map an docs')) = set (concat (map an docs))" using assms by simp
  then have "set (sort (remdups (concat (map an docs')))) = set (sort (remdups (concat (map an docs))))"
    by simp
  then show ?thesis
    unfolding vocabulary_def
    by (intro sorted_distinct_set_unique) simp_all
qed

lemma doc_freq_cong:
  assumes "mset docs' = mset docs"
  shows "doc_freq an docs' t = doc_freq an docs t"
proof -
  have "doc_freq an docs' t = size (filter_mset (\<lambda>d. t \<in> set (an d)) (mset docs'))"
    by (simp add: doc_freq_def flip: mset_filter)
  also have "\<dots> = size (filter_mset (\<lambda>d. t \<in> set (an d)) (mset docs))" by (simp add: assms)
  also have "\<dots> = doc_freq an docs t" by (simp add: doc_freq_def flip: mset_filter)
  finally show ?thesis .
qed

lemma tfidf_row_cong:
  assumes "mset docs' = mset docs"
  shows "tfidf_row an docs' vocab d = tfidf_row an docs vocab d"
proof -
  from assms have "length docs' = length docs" by (rule mset_eq_length)
  then have "idf an docs' t = idf an docs t" for t
    by (simp add: idf_def doc_freq_cong [OF assms])
  then show ?thesis by (simp add: tfidf_row_def)
qed

text \<open>
  Reordering in exact arithmetic. Let \<open>p\<close> permute the positions of the resume list. Ranking
  the list reordered by \<open>p\<close> raises what ranking the list raises, or returns the scores of
  the list reordered by \<open>p\<close>: document frequencies and vocabulary do not depend on the
  order. Whether the rounded sums of the library come out the same for every order is
  outside this model.
\<close>

lemma rank_resumes_permutation:
  assumes "bij_betw p {..<length resumes} {..<length resumes}"
  shows "rank_resumes an job_description (map (\<lambda>i. resumes ! p i) [0..<length resumes]) =
     (case rank_resumes an job_description resumes of
        Inl e \<Rightarrow> Inl e
      | Inr scores \<Rightarrow> Inr (map (\<lambda>i. scores ! p i) [0..<length resumes]))"
proof -
  let ?rs' = "map (\<lambda>i. resumes ! p i) [0..<length resumes]"
  let ?docs = "job_description # resumes" and ?docs' = "job_description # ?rs'"
  have ms: "mset ?rs' = mset resumes" by (rule mset_reindex [OF assms])
  then have msd: "mset ?docs' = mset ?docs" by simp
  then have "set ?docs' = set ?docs" by (rule mset_eq_setD)
  then have voc: "vocabulary an ?docs' = vocabulary an ?docs" by (rule vocabulary_cong)
  have rng: "p i < length resumes" if "i < length resumes" for i
    using assms that by (auto simp: bij_betw_def)
  show ?thesis
  proof (cases "vocabulary an ?docs = []")
    case True
    with voc have "vocabulary an ?docs' = []" by simp
    from rank_resumes_no_vocabulary [OF this] rank_resumes_no_vocabulary [OF True]
    show ?thesis by simp
  next
    case False
    show ?thesis
    proof (cases "resumes = []")
      case True
      with rank_resumes_Inr [of an job_description "[]"] show ?thesis
        by (auto split: sum.splits)
    next
      case ne: False
      then have ne': "?rs' \<noteq> []" by simp
      from False voc have v': "vocabulary an ?docs' \<noteq> []" by simp
      let ?V = "vocabulary an ?docs"
      let ?f = "\<lambda>r. cosine (tfidf_row an ?docs ?V job_description) (tfidf_row an ?docs ?V r)"
      have "rank_resumes an job_description ?rs' =
        Inr (map (\<lambda>r. cosine (tfidf_row an ?docs' (vocabulary an ?docs') job_description)
                      (tfidf_row an ?docs' (vocabulary an ?docs') r)) ?rs')"
        by (rule rank_resumes_eq [OF ne' v'])
      also have "\<dots> = Inr (map ?f ?rs')"
        by (simp only: voc tfidf_row_cong [OF msd])
      also have "map ?f ?rs' = map (\<lambda>i. map ?f resumes ! p i) [0..<length resumes]"
        by (simp add: rng)
      finally show ?thesis
        by (simp add: rank_resumes_eq [OF ne False])
    qed
  qed
qed

lemma swap_bij: "bij_betw (\<lambda>i::nat. 1 - i) {..<length [a, b]} {..<length [a, b]}"
proof -
  have "{..<length [a, b]} = {0, 1}" by auto
  then show ?thesis by (auto simp: bij_betw_def inj_on_def)
qed

lemma rank_resumes_permutation_example:
  "bij_betw (\<lambda>i::nat. 1 - i) {..<length [''senior python developer'', ''graphic designer'']}
      {..<length [''senior python developer'', ''graphic designer'']} \<and>
   (\<exists>s0 s1.
      rank_resumes default_analyzer ''python developer''
        [''senior python developer'', ''graphic designer''] = Inr [s0, s1] \<and>
      rank_resumes default_analyzer ''python developer''
        [''graphic designer'', ''senior python developer''] = Inr [s1, s0])"
proof -
  have h: "bij_betw (\<lambda>i::nat. 1 - i) {..<length [''senior python developer'', ''graphic designer'']}
      {..<length [''senior python developer'', ''graphic designer'']}"
    by (rule swap_bij)
  have h1: "[''senior python developer'', ''graphic designer''] \<noteq> []" by simp
  have h2: "vocabulary default_analyzer
     (''python developer'' # [''senior python developer'', ''graphic designer'']) \<noteq> []"
    by (simp add: example_vocabulary)
  from rank_resumes_eq [OF h1 h2] obtain s0 s1 where
    r: "rank_resumes default_analyzer ''python developer''
       [''senior python developer'', ''graphic designer''] = Inr [s0, s1]"
    by simp
  from rank_resumes_permutation [OF h, of default_analyzer "''python developer''"] r
  have "rank_resumes default_analyzer ''python developer''
        [''graphic designer'', ''senior python developer''] = Inr [s1, s0]"
    by (simp add: upt_rec)
  with r h show ?thesis by blast
qed

subsection \<open>What is shown after ranking\<close>

text \<open>
  The rows shown are the rows \<open>sort_values\<close> returns, numbered from 1; the script itself
  fixes no order among them.
\<close>

lemma report_shows_sort_values:
  assumes "resumes \<noteq> []" and "rank_resumes (analyzer E) job_description resumes = Inr scores"
  shows "report E job_description (tr, resumes, resume_names, True) =
     \<lparr>trace = tr @ [Call_rank job_description resumes,
                     St_dataframe (zip [1 ..< Suc (length (sort_values E (zip resume_names scores)))]
                        (sort_values E (zip resume_names scores))),
                     St_download_button (sort_values E (zip resume_names scores))],
      uncaught = None\<rparr>"
  using assms by (simp add: report_def Let_def)

end
